theory Spec2Isabelle
  imports Main "HOL-Library.Word" "HOL-Library.Signed_Division"
begin

section \<open>The scheduler plugin of \<^verbatim>\<open>pkg/plugins/scheduler.go\<close>\<close>

text \<open>
  The plugin has three entry points: \<^verbatim>\<open>PreFilter\<close> (gang admission on the
  \<^verbatim>\<open>podGroup\<close> and \<^verbatim>\<open>minAvailable\<close> labels), \<^verbatim>\<open>Score\<close> (memory headroom
  of one node, in \<^verbatim>\<open>Least\<close> or \<^verbatim>\<open>Most\<close> mode) and \<^verbatim>\<open>NormalizeScore\<close>
  (linear rescale of the raw scores into the framework's range).

  Go's \<^verbatim>\<open>int64\<close> is a 64-bit word read in two's complement: \<open>+\<close>, \<open>-\<close> and \<open>*\<close>
  wrap around, comparisons are signed, \<^verbatim>\<open>/\<close> truncates towards zero and panics on a
  zero divisor. Logging has no effect on the results and is left out.
\<close>

subsection \<open>Machine integers\<close>

type_synonym int64 = "64 word"

datatype panic = IntegerDivideByZero

text \<open>
  Go's \<^verbatim>\<open>a / b\<close> on \<^verbatim>\<open>int64\<close>: a run-time panic when \<open>b\<close> is zero, otherwise the
  quotient truncated towards zero; the one overflowing case, the most negative value
  divided by \<open>-1\<close>, wraps around to the most negative value.
\<close>

definition int64_div :: "int64 \<Rightarrow> int64 \<Rightarrow> panic + int64" where
  "int64_div a b =
     (if b = 0 then Inl IntegerDivideByZero else Inr (word_of_int (sint a sdiv sint b)))"

definition MaxInt64 :: int64 where
  "MaxInt64 = 9223372036854775807"

definition MinInt64 :: int64 where
  "MinInt64 = - 9223372036854775808"

subsection \<open>\<^verbatim>\<open>strconv.Atoi\<close>\<close>

text \<open>
  The standard library's \<^verbatim>\<open>strconv.Atoi\<close> on a 64-bit platform, where \<^verbatim>\<open>int\<close>
  has 64 bits: \<^verbatim>\<open>ParseInt(s, 10, 0)\<close>, which strips an optional sign \<^verbatim>\<open>+\<close> or
  \<^verbatim>\<open>-\<close> and hands the rest to \<^verbatim>\<open>ParseUint\<close>. Its digit loop works on a
  \<^verbatim>\<open>uint64\<close>: a byte that is no decimal digit is a syntax error; an accumulator at or
  above the cutoff \<open>(2^64 - 1) div 10 + 1\<close>, or an addition of the digit that wraps
  around, is a range error. A range error keeps a value beside the error, but the caller
  below only tests the error. \<^verbatim>\<open>Atoi\<close>'s fast path for inputs shorter than 19 bytes
  computes the same results.
\<close>

datatype NumError = ErrSyntax | ErrRange

definition is_digit :: "char \<Rightarrow> bool" where
  "is_digit c = (48 \<le> (of_char c :: nat) \<and> (of_char c :: nat) \<le> 57)"

definition digit_val :: "char \<Rightarrow> nat" where
  "digit_val c = (of_char c :: nat) - 48"

fun ParseUint_loop :: "64 word \<Rightarrow> string \<Rightarrow> NumError + 64 word" where
  "ParseUint_loop n [] = Inr n"
| "ParseUint_loop n (c # cs) =
     (if \<not> is_digit c then Inl ErrSyntax
      else if 1844674407370955162 \<le> n then Inl ErrRange
      else if n * 10 + word_of_nat (digit_val c) < n * 10 then Inl ErrRange
      else ParseUint_loop (n * 10 + word_of_nat (digit_val c)) cs)"

definition ParseUint :: "string \<Rightarrow> NumError + 64 word" where
  "ParseUint s = (if s = [] then Inl ErrSyntax else ParseUint_loop 0 s)"

definition ParseInt :: "string \<Rightarrow> NumError + int64" where
  "ParseInt s =
     (case s of
        [] \<Rightarrow> Inl ErrSyntax
      | c # cs \<Rightarrow>
          (let neg = (c = CHR ''-'');
               body = (if c = CHR ''+'' \<or> c = CHR ''-'' then cs else s)
           in case ParseUint body of
                Inl err \<Rightarrow> Inl err
              | Inr un \<Rightarrow>
                  if \<not> neg \<and> 9223372036854775808 \<le> un then Inl ErrRange
                  else if neg \<and> 9223372036854775808 < un then Inl ErrRange
                  else Inr (if neg then - un else un)))"

definition Atoi :: "string \<Rightarrow> NumError + int64" where
  "Atoi s = ParseInt s"

text \<open>
  The strings \<^verbatim>\<open>Atoi\<close> accepts, read off the string itself: an optional sign, then a
  non-empty run of decimal digits whose value is at most \<open>2^63\<close> after a minus sign and
  below \<open>2^63\<close> otherwise. \<open>decimal_int\<close> is the integer such a string denotes.
\<close>

fun decimal_value :: "nat \<Rightarrow> string \<Rightarrow> nat" where
  "decimal_value n [] = n"
| "decimal_value n (c # cs) = decimal_value (n * 10 + digit_val c) cs"

definition valid_int_label :: "string \<Rightarrow> bool" where
  "valid_int_label s =
     (case s of
        [] \<Rightarrow> False
      | c # cs \<Rightarrow>
          (let body = (if c = CHR ''+'' \<or> c = CHR ''-'' then cs else s)
           in body \<noteq> [] \<and> list_all is_digit body \<and>
              (if c = CHR ''-'' then decimal_value 0 body \<le> 9223372036854775808
               else decimal_value 0 body < 9223372036854775808)))"

definition decimal_int :: "string \<Rightarrow> int" where
  "decimal_int s =
     (case s of
        [] \<Rightarrow> 0
      | c # cs \<Rightarrow>
          if c = CHR ''-'' then - int (decimal_value 0 cs)
          else if c = CHR ''+'' then int (decimal_value 0 cs)
          else int (decimal_value 0 s))"

subsection \<open>Pods, nodes and the framework handle\<close>

text \<open>
  A pod is read through its name and its label map only. Indexing a Go map with an
  absent key gives the zero value, here the empty string.
\<close>

record Pod =
  Name :: string
  Labels :: "string \<rightharpoonup> string"

definition label_value :: "(string \<rightharpoonup> string) \<Rightarrow> string \<Rightarrow> string" where
  "label_value podLabels k = (case podLabels k of None \<Rightarrow> [] | Some v \<Rightarrow> v)"

record Resource =
  Memory :: int64

record NodeInfo =
  Allocatable :: Resource
  Requested :: Resource

text \<open>
  The framework handle is the host scheduler: the pod lister answers a label selector
  (here the set of required label pairs) with the matching pods or an error, and the
  snapshot answers a node name with the node's resources or an error. Both are
  external to the plugin and stay parameters.
\<close>

type_synonym Selector = "(string \<times> string) list"

record Handle =
  ListPods :: "Selector \<Rightarrow> string + Pod list"
  GetNodeInfo :: "string \<Rightarrow> string + NodeInfo"

definition SelectorFromSet :: "(string \<times> string) list \<Rightarrow> Selector" where
  "SelectorFromSet kvs = kvs"

record CustomScheduler =
  handle :: Handle
  scoreMode :: string

definition groupNameLabel :: string where
  "groupNameLabel = ''podGroup''"

definition minAvailableLabel :: string where
  "minAvailableLabel = ''minAvailable''"

definition leastMode :: string where
  "leastMode = ''Least''"

definition mostMode :: string where
  "mostMode = ''Most''"

subsection \<open>Statuses\<close>

text \<open>
  A framework status is a code and a message. The message is kept as the data the
  source formats into it: the parse error, the lister's error, or the group with its
  observed size and required minimum.
\<close>

datatype Code = Success | Error | Unschedulable

datatype Message =
    NoMessage
  | InvalidMinAvailable NumError
  | FailedToListPods string
  | GroupTooSmall string int int
  | LookupFailed string

record Status =
  code :: Code
  message :: Message

definition NewStatus :: "Code \<Rightarrow> Message \<Rightarrow> Status" where
  "NewStatus c m = \<lparr>code = c, message = m\<rparr>"

subsection \<open>\<^verbatim>\<open>PreFilter\<close>\<close>

text \<open>
  The \<^verbatim>\<open>PreFilterResult\<close> returned beside the status is \<^verbatim>\<open>nil\<close> on every path, so
  the model returns the status alone. \<^verbatim>\<open>len(pods)\<close> is a non-negative \<^verbatim>\<open>int\<close>,
  compared with the parsed \<^verbatim>\<open>int\<close> as signed values.
\<close>

definition PreFilter :: "CustomScheduler \<Rightarrow> Pod \<Rightarrow> Status" where
  "PreFilter cs pod =
     (let podLabels = Labels pod;
          groupLabelValue = label_value podLabels groupNameLabel;
          minAvailableValue = label_value podLabels minAvailableLabel
      in case Atoi minAvailableValue of
           Inl err \<Rightarrow> NewStatus Error (InvalidMinAvailable err)
         | Inr minAvailable \<Rightarrow>
             (case ListPods (handle cs) (SelectorFromSet [(groupNameLabel, groupLabelValue)]) of
                Inl err \<Rightarrow> NewStatus Error (FailedToListPods err)
              | Inr pods \<Rightarrow>
                  if int (length pods) < sint minAvailable
                  then NewStatus Unschedulable
                         (GroupTooSmall groupLabelValue (int (length pods)) (sint minAvailable))
                  else NewStatus Success NoMessage))"

subsection \<open>\<^verbatim>\<open>Score\<close>\<close>

text \<open>
  \<^verbatim>\<open>Score\<close> returns a raw score and a status pointer: \<^verbatim>\<open>nil\<close> (here \<open>None\<close>) on the
  normal path, which the framework reads as success. The division of the \<^verbatim>\<open>Least\<close>
  branch has no guard, so a zero headroom is a run-time panic.
\<close>

definition Score :: "CustomScheduler \<Rightarrow> Pod \<Rightarrow> string \<Rightarrow> panic + (int64 \<times> Status option)" where
  "Score cs pod nodeName =
     (case GetNodeInfo (handle cs) nodeName of
        Inl err \<Rightarrow> Inr (0, Some (NewStatus Error (LookupFailed err)))
      | Inr nodeInfo \<Rightarrow>
          (let allocatableMemory = Memory (Allocatable nodeInfo) - Memory (Requested nodeInfo)
           in if scoreMode cs = leastMode
              then (case int64_div 100000000000 allocatableMemory of
                      Inl p \<Rightarrow> Inl p
                    | Inr score \<Rightarrow> Inr (score, None))
              else Inr (allocatableMemory, None)))"

subsection \<open>\<^verbatim>\<open>NormalizeScore\<close>\<close>

text \<open>
  \<^verbatim>\<open>framework.MaxNodeScore\<close> and \<^verbatim>\<open>framework.MinNodeScore\<close> are constants of the
  imported package \<^verbatim>\<open>k8s.io/kubernetes/pkg/scheduler/framework\<close>, 100 and 0, both
  \<^verbatim>\<open>int64\<close>. A \<^verbatim>\<open>NodeScore\<close> of that package is a node name with its score.
\<close>

record NodeScore =
  NodeScore_Name :: string
  NodeScore_Score :: int64

definition MaxNodeScore :: int64 where
  "MaxNodeScore = 100"

definition MinNodeScore :: int64 where
  "MinNodeScore = 0"

text \<open>The first loop: the running minimum and maximum, compared as signed values.\<close>

fun minmax_loop :: "int64 \<times> int64 \<Rightarrow> NodeScore list \<Rightarrow> int64 \<times> int64" where
  "minmax_loop (minScore, maxScore) [] = (minScore, maxScore)"
| "minmax_loop (minScore, maxScore) (nodeScore # rest) =
     minmax_loop
       (if NodeScore_Score nodeScore <s minScore then NodeScore_Score nodeScore else minScore,
        if maxScore <s NodeScore_Score nodeScore then NodeScore_Score nodeScore else maxScore)
       rest"

text \<open>The loop of the degenerate case: every entry gets the maximum.\<close>

fun assign_max_loop :: "NodeScore list \<Rightarrow> NodeScore list" where
  "assign_max_loop [] = []"
| "assign_max_loop (nodeScore # rest) =
     nodeScore\<lparr>NodeScore_Score := MaxNodeScore\<rparr> # assign_max_loop rest"

text \<open>
  The rescaling loop. Each index is read and written once, so the in-place update is a
  map over the list; a panic of the division ends the call.
\<close>

fun rescale_loop :: "int64 \<Rightarrow> int64 \<Rightarrow> int64 \<Rightarrow> NodeScore list \<Rightarrow> panic + NodeScore list" where
  "rescale_loop minScore scoreRange frameRange [] = Inr []"
| "rescale_loop minScore scoreRange frameRange (nodeScore # rest) =
     (case int64_div ((NodeScore_Score nodeScore - minScore) * frameRange) scoreRange of
        Inl p \<Rightarrow> Inl p
      | Inr q \<Rightarrow>
          (case rescale_loop minScore scoreRange frameRange rest of
             Inl p \<Rightarrow> Inl p
           | Inr rest' \<Rightarrow> Inr (nodeScore\<lparr>NodeScore_Score := q + MinNodeScore\<rparr> # rest')))"

definition NormalizeScore ::
  "CustomScheduler \<Rightarrow> Pod \<Rightarrow> NodeScore list \<Rightarrow> panic + (NodeScore list \<times> Status)" where
  "NormalizeScore cs pod scores =
     (case minmax_loop (MaxInt64, MinInt64) scores of
        (minScore, maxScore) \<Rightarrow>
          if minScore = maxScore
          then Inr (assign_max_loop scores, NewStatus Success NoMessage)
          else (let scoreRange = maxScore - minScore;
                    frameRange = MaxNodeScore - MinNodeScore
                in case rescale_loop minScore scoreRange frameRange scores of
                     Inl p \<Rightarrow> Inl p
                   | Inr scores' \<Rightarrow> Inr (scores', NewStatus Success NoMessage)))"

subsection \<open>A small cluster\<close>

text \<open>
  Concrete pods, nodes and schedulers on which the functions are run: group \<open>A\<close> has two
  pods and asks for three, group \<open>B\<close> has one pod and asks for one, and the nodes have a
  headroom of 1,000,000 bytes, 2,000,000 bytes, zero (two of them) and \<open>-1\<close>.
\<close>

definition pod_a0 :: Pod where
  "pod_a0 = \<lparr>Name = ''job-a-0'', Labels = [''podGroup'' \<mapsto> ''A'', ''minAvailable'' \<mapsto> ''3'']\<rparr>"

definition pod_a1 :: Pod where
  "pod_a1 = \<lparr>Name = ''job-a-1'', Labels = [''podGroup'' \<mapsto> ''A'', ''minAvailable'' \<mapsto> ''3'']\<rparr>"

definition pod_b0 :: Pod where
  "pod_b0 = \<lparr>Name = ''job-b-0'', Labels = [''podGroup'' \<mapsto> ''B'', ''minAvailable'' \<mapsto> ''1'']\<rparr>"

definition pod_negative :: Pod where
  "pod_negative =
     \<lparr>Name = ''job-c-0'', Labels = [''podGroup'' \<mapsto> ''C'', ''minAvailable'' \<mapsto> ''-5'']\<rparr>"

definition pod_abc :: Pod where
  "pod_abc = \<lparr>Name = ''job-d-0'', Labels = [''podGroup'' \<mapsto> ''D'', ''minAvailable'' \<mapsto> ''abc'']\<rparr>"

definition pod_unlabeled :: Pod where
  "pod_unlabeled = \<lparr>Name = ''solo'', Labels = Map.empty\<rparr>"

definition example_pods :: "Selector \<Rightarrow> string + Pod list" where
  "example_pods selector =
     (if selector = [(''podGroup'', ''A'')] then Inr [pod_a0, pod_a1]
      else if selector = [(''podGroup'', ''B'')] then Inr [pod_b0]
      else Inr [])"

definition example_nodes :: "string \<Rightarrow> string + NodeInfo" where
  "example_nodes nodeName =
     (if nodeName = ''node-1m''
      then Inr \<lparr>Allocatable = \<lparr>Memory = 4000000\<rparr>, Requested = \<lparr>Memory = 3000000\<rparr>\<rparr>
      else if nodeName = ''node-2m''
      then Inr \<lparr>Allocatable = \<lparr>Memory = 4000000\<rparr>, Requested = \<lparr>Memory = 2000000\<rparr>\<rparr>
      else if nodeName = ''node-full''
      then Inr \<lparr>Allocatable = \<lparr>Memory = 8589934592\<rparr>, Requested = \<lparr>Memory = 8589934592\<rparr>\<rparr>
      else if nodeName = ''node-none''
      then Inr \<lparr>Allocatable = \<lparr>Memory = 0\<rparr>, Requested = \<lparr>Memory = 0\<rparr>\<rparr>
      else if nodeName = ''node-over''
      then Inr \<lparr>Allocatable = \<lparr>Memory = 4096\<rparr>, Requested = \<lparr>Memory = 4097\<rparr>\<rparr>
      else Inl ''nodeinfo not found'')"

definition example_handle :: Handle where
  "example_handle = \<lparr>ListPods = example_pods, GetNodeInfo = example_nodes\<rparr>"

definition least_scheduler :: CustomScheduler where
  "least_scheduler = \<lparr>handle = example_handle, scoreMode = leastMode\<rparr>"

definition most_scheduler :: CustomScheduler where
  "most_scheduler = \<lparr>handle = example_handle, scoreMode = mostMode\<rparr>"

text \<open>
  Raw score lists: the list 10, 20, 30; a uniform list; an unsorted list; and two lists
  whose spread is too wide for the product with the frame range to fit in 64 bits.
\<close>

definition three_scores :: "NodeScore list" where
  "three_scores =
     [\<lparr>NodeScore_Name = ''node-1'', NodeScore_Score = 10\<rparr>,
      \<lparr>NodeScore_Name = ''node-2'', NodeScore_Score = 20\<rparr>,
      \<lparr>NodeScore_Name = ''node-3'', NodeScore_Score = 30\<rparr>]"

definition wide_scores :: "NodeScore list" where
  "wide_scores =
     [\<lparr>NodeScore_Name = ''node-1'', NodeScore_Score = 0\<rparr>,
      \<lparr>NodeScore_Name = ''node-2'', NodeScore_Score = 100000000000000000\<rparr>]"

definition uniform_scores :: "NodeScore list" where
  "uniform_scores =
     [\<lparr>NodeScore_Name = ''node-1'', NodeScore_Score = 5\<rparr>,
      \<lparr>NodeScore_Name = ''node-2'', NodeScore_Score = 5\<rparr>,
      \<lparr>NodeScore_Name = ''node-3'', NodeScore_Score = 5\<rparr>]"

definition skewed_scores :: "NodeScore list" where
  "skewed_scores =
     [\<lparr>NodeScore_Name = ''node-1'', NodeScore_Score = 45\<rparr>,
      \<lparr>NodeScore_Name = ''node-2'', NodeScore_Score = 5\<rparr>,
      \<lparr>NodeScore_Name = ''node-3'', NodeScore_Score = 15\<rparr>]"

definition wide_ordered_scores :: "NodeScore list" where
  "wide_ordered_scores =
     [\<lparr>NodeScore_Name = ''node-1'', NodeScore_Score = 0\<rparr>,
      \<lparr>NodeScore_Name = ''node-2'', NodeScore_Score = 50000000000000000\<rparr>,
      \<lparr>NodeScore_Name = ''node-3'', NodeScore_Score = 100000000000000000\<rparr>]"

section \<open>Properties\<close>

subsection \<open>Signed 64-bit arithmetic\<close>

lemma sdiv_pos_eq: "0 \<le> (a::int) \<Longrightarrow> 0 < b \<Longrightarrow> a sdiv b = a div b"
  by (simp add: signed_divide_int_def sgn_if)

lemma sint_word_of_int_small:
  "- 9223372036854775808 \<le> k \<Longrightarrow> k \<le> 9223372036854775807 \<Longrightarrow>
   sint (word_of_int k :: int64) = k"
  by (simp add: sint_sbintrunc' signed_take_bit_int_eq_self)

lemma sint_int64_bounds:
  "- 9223372036854775808 \<le> sint (w :: int64) \<and> sint w \<le> 9223372036854775807"
  using sint_ge [of w] sint_lt [of w] by simp

lemma sint_diff_exact:
  fixes a b :: int64
  assumes "- 9223372036854775808 \<le> sint a - sint b" "sint a - sint b \<le> 9223372036854775807"
  shows "sint (a - b) = sint a - sint b"
  using assms by (simp add: sint_word_ariths signed_take_bit_int_eq_self)

lemma sint_mult_exact:
  fixes a b :: int64
  assumes "- 9223372036854775808 \<le> sint a * sint b" "sint a * sint b \<le> 9223372036854775807"
  shows "sint (a * b) = sint a * sint b"
  using assms by (simp add: sint_word_ariths signed_take_bit_int_eq_self)

lemma sint_MaxInt64: "sint MaxInt64 = 9223372036854775807"
  by (simp add: MaxInt64_def)

lemma sint_MinInt64: "sint MinInt64 = - 9223372036854775808"
  by (simp add: MinInt64_def)

lemma abs_sdiv_le: "\<bar>(a::int) sdiv b\<bar> \<le> \<bar>a\<bar>"
proof (cases "b = 0")
  case True
  then show ?thesis by simp
next
  case False
  then have "1 \<le> \<bar>b\<bar>" by simp
  then have "\<bar>a\<bar> div \<bar>b\<bar> \<le> \<bar>a\<bar> div 1"
    by (intro zdiv_mono2) auto
  moreover have "0 \<le> \<bar>a\<bar> div \<bar>b\<bar>"
    by (simp add: pos_imp_zdiv_nonneg_iff False)
  then have "\<bar>a sdiv b\<bar> \<le> \<bar>a\<bar> div \<bar>b\<bar>"
    by (simp add: signed_divide_int_def abs_mult abs_sgn_eq)
  ultimately show ?thesis by simp
qed

subsection \<open>Running the cluster\<close>

lemmas Atoi_defs = Atoi_def ParseInt_def ParseUint_def is_digit_def digit_val_def

lemmas label_defs = label_value_def groupNameLabel_def minAvailableLabel_def SelectorFromSet_def

lemmas cluster_defs =
  least_scheduler_def most_scheduler_def example_handle_def example_pods_def example_nodes_def

subsection \<open>Parsing the label\<close>

lemma decimal_value_ge: "n \<le> decimal_value n ds"
proof (induction ds arbitrary: n)
  case Nil
  then show ?case by simp
next
  case (Cons c cs)
  have "n \<le> n * 10 + digit_val c" by simp
  also have "\<dots> \<le> decimal_value (n * 10 + digit_val c) cs" by (rule Cons.IH)
  finally show ?case by simp
qed

lemma digit_val_le: "is_digit c \<Longrightarrow> digit_val c \<le> 9"
  by (auto simp: is_digit_def digit_val_def)

lemma unat_times_ten:
  fixes w :: "64 word"
  assumes "\<not> 1844674407370955162 \<le> w"
  shows "unat (w * 10) = unat w * 10"
proof -
  have "unat w < 1844674407370955162"
    using assms by (simp add: word_le_nat_alt)
  then have "unat w * 10 < 2 ^ 64" by simp
  then show ?thesis
    by (simp add: unat_word_ariths)
qed

lemma unat_digit:
  assumes "d \<le> 9"
  shows "unat (word_of_nat d :: 64 word) = d"
  using assms by (simp add: unat_of_nat)

lemma add_digit_wraps_iff:
  fixes x :: "64 word"
  assumes "d \<le> 9"
  shows "x + word_of_nat d < x \<longleftrightarrow> 18446744073709551616 \<le> unat x + d"
proof -
  have x: "unat x < 18446744073709551616"
    using unsigned_less [of x, where ?'a = nat] by simp
  have u: "unat (x + word_of_nat d) = (unat x + d) mod 18446744073709551616"
    using assms by (simp add: unat_word_ariths unat_digit)
  show ?thesis
  proof (cases "unat x + d < 18446744073709551616")
    case True
    then show ?thesis by (simp add: word_less_nat_alt u)
  next
    case False
    then have "(unat x + d) mod 18446744073709551616 = unat x + d - 18446744073709551616"
      using x assms by (simp add: mod_if)
    then show ?thesis
      using False x assms by (simp add: word_less_nat_alt u)
  qed
qed

lemma ParseUint_loop_digits:
  assumes "list_all is_digit ds"
  shows "ParseUint_loop w ds =
           (if decimal_value (unat w) ds < 18446744073709551616
            then Inr (word_of_nat (decimal_value (unat w) ds)) else Inl ErrRange)"
  using assms
proof (induction ds arbitrary: w)
  case Nil
  have "unat w < 18446744073709551616"
    using unsigned_less [of w, where ?'a = nat] by simp
  then show ?case by simp
next
  case (Cons c cs)
  have dig: "is_digit c" and rest: "list_all is_digit cs"
    using Cons.prems by simp_all
  have d9: "digit_val c \<le> 9" by (rule digit_val_le [OF dig])
  show ?case
  proof (cases "1844674407370955162 \<le> w")
    case True
    then have "1844674407370955162 \<le> unat w"
      by (simp add: word_le_nat_alt)
    then have "18446744073709551616 \<le> unat w * 10 + digit_val c" by simp
    also have "\<dots> \<le> decimal_value (unat w * 10 + digit_val c) cs"
      by (rule decimal_value_ge)
    finally show ?thesis using True dig by simp
  next
    case False
    have m: "unat (w * 10) = unat w * 10" by (rule unat_times_ten [OF False])
    show ?thesis
    proof (cases "w * 10 + word_of_nat (digit_val c) < w * 10")
      case True
      then have "18446744073709551616 \<le> unat w * 10 + digit_val c"
        using add_digit_wraps_iff [OF d9, of "w * 10"] by (simp add: m)
      also have "\<dots> \<le> decimal_value (unat w * 10 + digit_val c) cs"
        by (rule decimal_value_ge)
      finally show ?thesis using True False dig by simp
    next
      case nowrap: False
      then have "unat w * 10 + digit_val c < 18446744073709551616"
        using add_digit_wraps_iff [OF d9, of "w * 10"] by (simp add: m)
      then have u: "unat (w * 10 + word_of_nat (digit_val c)) = unat w * 10 + digit_val c"
        using d9 by (simp add: unat_word_ariths unat_digit m)
      show ?thesis
        using nowrap False dig Cons.IH [OF rest, of "w * 10 + word_of_nat (digit_val c)"]
        by (simp add: u)
    qed
  qed
qed

lemma ParseUint_loop_non_digit:
  assumes "\<not> list_all is_digit ds"
  shows "\<exists>e. ParseUint_loop w ds = Inl e"
  using assms by (induction ds arbitrary: w) auto

lemma ParseUint_digits:
  assumes "body \<noteq> []" "list_all is_digit body"
  shows "ParseUint body =
           (if decimal_value 0 body < 18446744073709551616
            then Inr (word_of_nat (decimal_value 0 body)) else Inl ErrRange)"
  using assms ParseUint_loop_digits [OF assms(2), of 0] by (simp add: ParseUint_def)

lemma ParseUint_rejects:
  assumes "body = [] \<or> \<not> list_all is_digit body"
  shows "\<exists>e. ParseUint body = Inl e"
  using assms ParseUint_loop_non_digit [of body 0] by (auto simp: ParseUint_def)

lemma unat_decimal:
  assumes "v < 18446744073709551616"
  shows "unat (word_of_nat v :: 64 word) = v"
  using assms by (simp add: unat_of_nat)

lemma ParseInt_body:
  assumes "body = (if c = CHR ''+'' \<or> c = CHR ''-'' then cs else c # cs)"
  shows "ParseInt (c # cs) =
     (case ParseUint body of
        Inl err \<Rightarrow> Inl err
      | Inr un \<Rightarrow>
          if c \<noteq> CHR ''-'' \<and> 9223372036854775808 \<le> un then Inl ErrRange
          else if c = CHR ''-'' \<and> 9223372036854775808 < un then Inl ErrRange
          else Inr (if c = CHR ''-'' then - un else un))"
  by (simp add: ParseInt_def Let_def assms)

lemma valid_int_label_body:
  assumes "body = (if c = CHR ''+'' \<or> c = CHR ''-'' then cs else c # cs)"
  shows "valid_int_label (c # cs) \<longleftrightarrow>
           body \<noteq> [] \<and> list_all is_digit body \<and>
           (if c = CHR ''-'' then decimal_value 0 body \<le> 9223372036854775808
            else decimal_value 0 body < 9223372036854775808)"
  unfolding valid_int_label_def list.case Let_def assms ..

text \<open>
  \<^verbatim>\<open>Atoi\<close> accepts exactly the optionally signed, non-empty digit strings whose value
  fits in 64 bits, and returns that value.
\<close>

lemma Atoi_rejects:
  assumes "\<not> valid_int_label s"
  shows "\<exists>e. Atoi s = Inl e"
proof (cases s)
  case Nil
  then show ?thesis by (simp add: Atoi_def ParseInt_def)
next
  case (Cons c cs)
  define body where "body = (if c = CHR ''+'' \<or> c = CHR ''-'' then cs else c # cs)"
  define v where "v = decimal_value 0 body"
  define un where "un = (word_of_nat v :: 64 word)"
  note run = ParseInt_body [OF body_def]
  have invalid: "\<not> (body \<noteq> [] \<and> list_all is_digit body \<and>
      (if c = CHR ''-'' then v \<le> 9223372036854775808 else v < 9223372036854775808))"
    using assms unfolding Cons valid_int_label_body [OF body_def] v_def .
  show ?thesis
  proof (cases "body \<noteq> [] \<and> list_all is_digit body")
    case False
    then obtain e where "ParseUint body = Inl e"
      using ParseUint_rejects [of body] by blast
    then show ?thesis
      by (simp add: Atoi_def Cons run)
  next
    case True
    have parse: "ParseUint body =
        (if v < 18446744073709551616 then Inr un else Inl ErrRange)"
      using True by (simp add: ParseUint_digits v_def un_def)
    have range: "\<not> (if c = CHR ''-'' then v \<le> 9223372036854775808
                     else v < 9223372036854775808)"
      using invalid True by blast
    show ?thesis
    proof (cases "v < 18446744073709551616")
      case False
      then show ?thesis
        by (simp add: Atoi_def Cons run parse)
    next
      case small: True
      have u: "unat un = v"
        unfolding un_def by (rule unat_decimal [OF small])
      have "(c \<noteq> CHR ''-'' \<and> 9223372036854775808 \<le> un) \<or>
            (c = CHR ''-'' \<and> 9223372036854775808 < un)"
        using range by (cases "c = CHR ''-''") (simp_all add: word_le_nat_alt word_less_nat_alt u)
      moreover have "ParseInt (c # cs) =
          (if c \<noteq> CHR ''-'' \<and> 9223372036854775808 \<le> un then Inl ErrRange
           else if c = CHR ''-'' \<and> 9223372036854775808 < un then Inl ErrRange
           else Inr (if c = CHR ''-'' then - un else un))"
        using small by (simp only: run parse if_True sum.case)
      ultimately have "ParseInt (c # cs) = Inl ErrRange"
        by auto
      then show ?thesis by (simp add: Atoi_def Cons)
    qed
  qed
qed

lemma Atoi_accepts:
  assumes "valid_int_label s"
  shows "\<exists>n. Atoi s = Inr n \<and> sint n = decimal_int s"
proof (cases s)
  case Nil
  then show ?thesis using assms by (simp add: valid_int_label_def)
next
  case (Cons c cs)
  define body where "body = (if c = CHR ''+'' \<or> c = CHR ''-'' then cs else c # cs)"
  define v where "v = decimal_value 0 body"
  define un where "un = (word_of_nat v :: 64 word)"
  note run = ParseInt_body [OF body_def]
  have valid: "body \<noteq> [] \<and> list_all is_digit body \<and>
      (if c = CHR ''-'' then v \<le> 9223372036854775808 else v < 9223372036854775808)"
    using assms unfolding Cons valid_int_label_body [OF body_def] v_def .
  have small: "v < 18446744073709551616"
    using valid by (simp split: if_splits)
  have parse: "ParseUint body = Inr un"
    using valid small by (simp add: ParseUint_digits v_def un_def)
  have u: "unat un = v"
    unfolding un_def by (rule unat_decimal [OF small])
  have un_int: "un = word_of_int (int v)"
    by (simp add: un_def)
  have step: "ParseInt (c # cs) =
      (if c \<noteq> CHR ''-'' \<and> 9223372036854775808 \<le> un then Inl ErrRange
       else if c = CHR ''-'' \<and> 9223372036854775808 < un then Inl ErrRange
       else Inr (if c = CHR ''-'' then - un else un))"
    by (simp only: run parse sum.case)
  show ?thesis
  proof (cases "c = CHR ''-''")
    case True
    then have v: "v \<le> 9223372036854775808" using valid by simp
    have "\<not> 9223372036854775808 < un"
      using v by (simp add: word_less_nat_alt u)
    then have result: "ParseInt (c # cs) = Inr (- un)"
      using True unfolding step by simp
    have "- un = word_of_int (- int v)"
      by (simp add: un_int)
    moreover have "sint (word_of_int (- int v) :: int64) = - int v"
      using v by (intro sint_word_of_int_small) auto
    ultimately have "sint (- un) = - int v"
      by simp
    moreover have "decimal_int s = - int v"
      using True by (simp add: decimal_int_def Cons v_def body_def)
    ultimately show ?thesis
      using result by (simp add: Atoi_def Cons)
  next
    case False
    then have v: "v < 9223372036854775808" using valid by simp
    have "\<not> 9223372036854775808 \<le> un"
      using v by (simp add: word_le_nat_alt u)
    then have result: "ParseInt (c # cs) = Inr un"
      using False unfolding step by simp
    have "sint (word_of_int (int v) :: int64) = int v"
      using v by (intro sint_word_of_int_small) auto
    then have "sint un = int v"
      by (simp add: un_int)
    moreover have "decimal_int s = int v"
      using False by (simp add: decimal_int_def Cons v_def body_def)
    ultimately show ?thesis
      using result by (simp add: Atoi_def Cons)
  qed
qed

subsection \<open>Admission\<close>

text \<open>
  C1. When the \<^verbatim>\<open>minAvailable\<close> label parses as the integer \<open>m\<close> and the lister
  answers the pod's group selector with \<open>g\<close> pods, \<^verbatim>\<open>PreFilter\<close> returns
  \<open>Unschedulable\<close> exactly when \<open>g < m\<close> and \<open>Success\<close> exactly when \<open>g \<ge> m\<close>.
\<close>

theorem PreFilter_admit_threshold:
  assumes "Atoi (label_value (Labels pod) minAvailableLabel) = Inr m"
    and "ListPods (handle cs)
           (SelectorFromSet [(groupNameLabel, label_value (Labels pod) groupNameLabel)]) = Inr pods"
  shows "(code (PreFilter cs pod) = Unschedulable \<longleftrightarrow> int (length pods) < sint m) \<and>
         (code (PreFilter cs pod) = Success \<longleftrightarrow> sint m \<le> int (length pods))"
  using assms by (simp add: PreFilter_def NewStatus_def)

theorem PreFilter_admit_threshold_witness:
  "Atoi (label_value (Labels pod_a0) minAvailableLabel) = Inr 3 \<and>
   ListPods (handle least_scheduler)
     (SelectorFromSet [(groupNameLabel, label_value (Labels pod_a0) groupNameLabel)])
     = Inr [pod_a0, pod_a1] \<and>
   PreFilter least_scheduler pod_a0 = NewStatus Unschedulable (GroupTooSmall ''A'' 2 3) \<and>
   code (PreFilter least_scheduler pod_a0) = Unschedulable \<and>
   Atoi (label_value (Labels pod_b0) minAvailableLabel) = Inr 1 \<and>
   ListPods (handle least_scheduler)
     (SelectorFromSet [(groupNameLabel, label_value (Labels pod_b0) groupNameLabel)])
     = Inr [pod_b0] \<and>
   code (PreFilter least_scheduler pod_b0) = Success"
proof -
  have parsed_a: "Atoi (label_value (Labels pod_a0) minAvailableLabel) = Inr 3"
    by (simp add: pod_a0_def label_defs Atoi_defs)
  have listed_a: "ListPods (handle least_scheduler)
      (SelectorFromSet [(groupNameLabel, label_value (Labels pod_a0) groupNameLabel)])
      = Inr [pod_a0, pod_a1]"
    by (simp add: pod_a0_def label_defs cluster_defs)
  have parsed_b: "Atoi (label_value (Labels pod_b0) minAvailableLabel) = Inr 1"
    by (simp add: pod_b0_def label_defs Atoi_defs word_le_nat_alt)
  have listed_b: "ListPods (handle least_scheduler)
      (SelectorFromSet [(groupNameLabel, label_value (Labels pod_b0) groupNameLabel)])
      = Inr [pod_b0]"
    by (simp add: pod_b0_def label_defs cluster_defs)
  have message: "PreFilter least_scheduler pod_a0
      = NewStatus Unschedulable (GroupTooSmall ''A'' 2 3)"
    by (simp add: PreFilter_def pod_a0_def label_defs Atoi_defs cluster_defs)
  show ?thesis
    using parsed_a listed_a parsed_b listed_b message
      PreFilter_admit_threshold [OF parsed_a listed_a]
      PreFilter_admit_threshold [OF parsed_b listed_b]
    by simp
qed

text \<open>
  The same threshold with the label read as a decimal string: a valid label \<open>v\<close>
  denotes the integer \<open>decimal_int v\<close>, and the status names the group, the observed
  size and the required minimum.
\<close>

corollary PreFilter_decimal_label:
  assumes "Labels pod minAvailableLabel = Some v"
    and "valid_int_label v"
    and "ListPods (handle cs)
           (SelectorFromSet [(groupNameLabel, label_value (Labels pod) groupNameLabel)]) = Inr pods"
  shows "PreFilter cs pod =
           (if int (length pods) < decimal_int v
            then NewStatus Unschedulable
                   (GroupTooSmall (label_value (Labels pod) groupNameLabel)
                      (int (length pods)) (decimal_int v))
            else NewStatus Success NoMessage)"
proof -
  obtain n where "Atoi v = Inr n" "sint n = decimal_int v"
    using Atoi_accepts [OF assms(2)] by blast
  then show ?thesis
    using assms(1,3) by (simp add: PreFilter_def label_value_def)
qed

text \<open>
  C10. A pod whose label map has no \<^verbatim>\<open>minAvailable\<close> key gets an \<open>Error\<close> status:
  the absent label reads as the empty string, which \<^verbatim>\<open>Atoi\<close> rejects. Such a pod
  is neither admitted nor reported unschedulable.
\<close>

theorem PreFilter_missing_label:
  assumes "Labels pod minAvailableLabel = None"
  shows "PreFilter cs pod = NewStatus Error (InvalidMinAvailable ErrSyntax) \<and>
         code (PreFilter cs pod) = Error \<and>
         code (PreFilter cs pod) \<noteq> Success \<and>
         code (PreFilter cs pod) \<noteq> Unschedulable"
  using assms by (simp add: PreFilter_def label_value_def Atoi_def ParseInt_def NewStatus_def)

theorem PreFilter_missing_label_witness:
  "Labels pod_unlabeled minAvailableLabel = None \<and>
   PreFilter least_scheduler pod_unlabeled = NewStatus Error (InvalidMinAvailable ErrSyntax)"
proof -
  have absent: "Labels pod_unlabeled minAvailableLabel = None"
    by (simp add: pod_unlabeled_def)
  show ?thesis
    using absent PreFilter_missing_label [OF absent, of least_scheduler] by simp
qed

text \<open>
  C5, as the code has it. A pod whose \<^verbatim>\<open>minAvailable\<close> label is present but is not
  an optionally signed decimal integer within the 64-bit range (for example \<open>abc\<close>) gets
  an \<open>Error\<close> status carrying the parse error, and neither \<open>Success\<close> nor
  \<open>Unschedulable\<close>.
\<close>

theorem PreFilter_invalid_label:
  assumes "Labels pod minAvailableLabel = Some v"
    and "\<not> valid_int_label v"
  shows "(\<exists>e. PreFilter cs pod = NewStatus Error (InvalidMinAvailable e)) \<and>
         code (PreFilter cs pod) = Error \<and>
         code (PreFilter cs pod) \<noteq> Success \<and>
         code (PreFilter cs pod) \<noteq> Unschedulable"
proof -
  obtain e where "Atoi v = Inl e"
    using Atoi_rejects [OF assms(2)] by blast
  then have "PreFilter cs pod = NewStatus Error (InvalidMinAvailable e)"
    using assms(1) by (simp add: PreFilter_def label_value_def)
  then show ?thesis
    by (simp add: NewStatus_def)
qed

theorem PreFilter_invalid_label_witness:
  "Labels pod_abc minAvailableLabel = Some ''abc'' \<and>
   PreFilter least_scheduler pod_abc = NewStatus Error (InvalidMinAvailable ErrSyntax) \<and>
   code (PreFilter least_scheduler pod_abc) = Error"
proof -
  have present: "Labels pod_abc minAvailableLabel = Some ''abc''"
    by (simp add: pod_abc_def minAvailableLabel_def)
  have invalid: "\<not> valid_int_label ''abc''"
    by (simp add: valid_int_label_def is_digit_def)
  have run: "PreFilter least_scheduler pod_abc = NewStatus Error (InvalidMinAvailable ErrSyntax)"
    by (simp add: PreFilter_def pod_abc_def label_defs Atoi_defs)
  show ?thesis
    using present run PreFilter_invalid_label [OF present invalid, of least_scheduler]
    by simp
qed

text \<open>
  C5 as stated fails for a negative integer: \<^verbatim>\<open>Atoi\<close> parses \<open>-5\<close>, no group is
  smaller than \<open>-5\<close>, and the pod is admitted.
\<close>

theorem PreFilter_negative_label_counterexample:
  "Labels pod_negative minAvailableLabel = Some ''-5'' \<and>
   Atoi ''-5'' = Inr (- 5) \<and>
   PreFilter least_scheduler pod_negative = NewStatus Success NoMessage"
  by (simp add: PreFilter_def pod_negative_def label_defs Atoi_defs cluster_defs)

subsection \<open>Scoring\<close>

lemma sint_least_quotient:
  "sint (word_of_int (100000000000 sdiv sint h) :: int64) = 100000000000 sdiv sint h"
proof -
  have "\<bar>100000000000 sdiv sint h\<bar> \<le> \<bar>100000000000 :: int\<bar>"
    by (rule abs_sdiv_le)
  then show ?thesis
    by (intro sint_word_of_int_small) auto
qed

lemma least_quotient_million:
  "(word_of_int (100000000000 sdiv sint (1000000 :: int64)) :: int64) = 100000"
  by (simp add: signed_divide_int_def)

text \<open>
  C3, as the code has it. For a node whose lookup succeeds with headroom \<open>h\<close>
  (allocatable minus requested memory, in \<^verbatim>\<open>int64\<close>): in \<^verbatim>\<open>Least\<close> mode and for
  \<open>h \<noteq> 0\<close>, \<^verbatim>\<open>Score\<close> returns the quotient of 100000000000 by \<open>h\<close> truncated towards
  zero; in \<^verbatim>\<open>Most\<close> mode it returns \<open>h\<close> itself. For \<open>h = 1000000\<close> the scores are
  100000 and 1000000.
\<close>

theorem Score_formula:
  assumes "GetNodeInfo (handle cs) nodeName = Inr nodeInfo"
    and "h = Memory (Allocatable nodeInfo) - Memory (Requested nodeInfo)"
  shows "(scoreMode cs = leastMode \<longrightarrow> h \<noteq> 0 \<longrightarrow>
            (\<exists>s. Score cs pod nodeName = Inr (s, None) \<and> sint s = 100000000000 sdiv sint h)) \<and>
         (scoreMode cs = mostMode \<longrightarrow> Score cs pod nodeName = Inr (h, None)) \<and>
         (scoreMode cs = leastMode \<longrightarrow> h = 1000000 \<longrightarrow>
            Score cs pod nodeName = Inr (100000, None)) \<and>
         (scoreMode cs = mostMode \<longrightarrow> h = 1000000 \<longrightarrow>
            Score cs pod nodeName = Inr (1000000, None))"
proof -
  have least: "Score cs pod nodeName = Inr (word_of_int (100000000000 sdiv sint h), None)"
    if "scoreMode cs = leastMode" "h \<noteq> 0"
    using that assms by (simp add: Score_def int64_div_def Let_def)
  have most: "Score cs pod nodeName = Inr (h, None)" if "scoreMode cs = mostMode"
    using that assms by (simp add: Score_def Let_def leastMode_def mostMode_def)
  have million: "Score cs pod nodeName = Inr (100000, None)"
    if "scoreMode cs = leastMode" "h = 1000000"
    using least [OF that(1)] that(2) least_quotient_million by simp
  show ?thesis
    using least most million by (simp add: sint_least_quotient)
qed

theorem Score_formula_witness:
  "GetNodeInfo (handle least_scheduler) ''node-1m''
     = Inr \<lparr>Allocatable = \<lparr>Memory = 4000000\<rparr>, Requested = \<lparr>Memory = 3000000\<rparr>\<rparr> \<and>
   scoreMode least_scheduler = leastMode \<and>
   (1000000 :: int64) \<noteq> 0 \<and>
   Score least_scheduler pod_a0 ''node-1m'' = Inr (100000, None) \<and>
   scoreMode most_scheduler = mostMode \<and>
   Score most_scheduler pod_a0 ''node-1m'' = Inr (1000000, None)"
proof -
  let ?info = "\<lparr>Allocatable = \<lparr>Memory = 4000000\<rparr>, Requested = \<lparr>Memory = 3000000\<rparr>\<rparr>"
  have least_lookup: "GetNodeInfo (handle least_scheduler) ''node-1m'' = Inr ?info"
    by (simp add: cluster_defs)
  have most_lookup: "GetNodeInfo (handle most_scheduler) ''node-1m'' = Inr ?info"
    by (simp add: cluster_defs)
  have headroom: "(1000000 :: int64) = Memory (Allocatable ?info) - Memory (Requested ?info)"
    by simp
  show ?thesis
    using least_lookup
      Score_formula [OF least_lookup headroom, of pod_a0]
      Score_formula [OF most_lookup headroom, of pod_a0]
    by (simp add: least_scheduler_def most_scheduler_def)
qed

text \<open>
  C3 as stated fails at a zero headroom: in \<^verbatim>\<open>Least\<close> mode the node \<open>node-none\<close>
  (allocatable and requested memory both 0) makes the division panic, so \<^verbatim>\<open>Score\<close>
  returns no score at all.
\<close>

theorem Score_least_zero_headroom_counterexample:
  "GetNodeInfo (handle least_scheduler) ''node-none''
     = Inr \<lparr>Allocatable = \<lparr>Memory = 0\<rparr>, Requested = \<lparr>Memory = 0\<rparr>\<rparr> \<and>
   scoreMode least_scheduler = leastMode \<and>
   Score least_scheduler pod_a0 ''node-none'' = Inl IntegerDivideByZero"
  by (simp add: cluster_defs Score_def int64_div_def)

text \<open>
  C6. The claim asks that a zero or negative headroom never fails in \<^verbatim>\<open>Least\<close> mode
  and scores as the largest \<^verbatim>\<open>int64\<close>. The code divides without a guard: on the
  full node (allocatable = requested = 8589934592) the call panics, and on the
  over-committed node (headroom \<open>-1\<close>) it returns \<open>-100000000000\<close>.
\<close>

theorem Score_least_full_node_panics:
  "Score least_scheduler pod_a0 ''node-full'' = Inl IntegerDivideByZero \<and>
   Score least_scheduler pod_a0 ''node-over'' = Inr (- 100000000000, None) \<and>
   (- 100000000000 :: int64) \<noteq> MaxInt64"
  by (simp add: cluster_defs Score_def int64_div_def MaxInt64_def signed_divide_int_def)

text \<open>
  C8. For two nodes with headrooms \<open>0 < h1 \<le> h2\<close> (as signed values), the
  \<^verbatim>\<open>Most\<close>-mode scores are ordered the same way and the \<^verbatim>\<open>Least\<close>-mode scores the
  opposite way.
\<close>

theorem Score_monotone:
  assumes "GetNodeInfo (handle cs) n1 = Inr i1"
    and "GetNodeInfo (handle cs) n2 = Inr i2"
    and "h1 = Memory (Allocatable i1) - Memory (Requested i1)"
    and "h2 = Memory (Allocatable i2) - Memory (Requested i2)"
    and "0 <s h1" and "h1 \<le>s h2"
  shows "(scoreMode cs = mostMode \<longrightarrow>
            (\<exists>s1 s2. Score cs pod n1 = Inr (s1, None) \<and> Score cs pod n2 = Inr (s2, None) \<and>
                     s1 \<le>s s2)) \<and>
         (scoreMode cs = leastMode \<longrightarrow>
            (\<exists>s1 s2. Score cs pod n1 = Inr (s1, None) \<and> Score cs pod n2 = Inr (s2, None) \<and>
                     s2 \<le>s s1))"
proof -
  have p1: "0 < sint h1" and p2: "0 < sint h2" and le: "sint h1 \<le> sint h2"
    using assms(5,6) by (simp_all add: word_sless_alt word_sle_eq)
  have nz: "h1 \<noteq> 0" "h2 \<noteq> 0"
    using p1 p2 by auto
  have "(100000000000::int) div sint h2 \<le> 100000000000 div sint h1"
    using p1 le by (intro zdiv_mono2) auto
  then have q: "(100000000000::int) sdiv sint h2 \<le> 100000000000 sdiv sint h1"
    using p1 p2 by (simp add: sdiv_pos_eq)
  have least: "(word_of_int (100000000000 sdiv sint h2) :: int64) \<le>s
               word_of_int (100000000000 sdiv sint h1)"
    using q by (simp add: word_sle_eq sint_least_quotient)
  show ?thesis
    using assms(1-4) nz least assms(6)
    by (simp add: Score_def int64_div_def leastMode_def mostMode_def Let_def)
qed

theorem Score_monotone_witness:
  "(0 :: int64) <s 1000000 \<and> (1000000 :: int64) \<le>s 2000000 \<and>
   Score most_scheduler pod_a0 ''node-1m'' = Inr (1000000, None) \<and>
   Score most_scheduler pod_a0 ''node-2m'' = Inr (2000000, None) \<and>
   Score least_scheduler pod_a0 ''node-1m'' = Inr (100000, None) \<and>
   Score least_scheduler pod_a0 ''node-2m'' = Inr (50000, None) \<and>
   (50000 :: int64) \<le>s 100000"
proof -
  let ?i1 = "\<lparr>Allocatable = \<lparr>Memory = 4000000\<rparr>, Requested = \<lparr>Memory = 3000000\<rparr>\<rparr>"
  let ?i2 = "\<lparr>Allocatable = \<lparr>Memory = 4000000\<rparr>, Requested = \<lparr>Memory = 2000000\<rparr>\<rparr>"
  have l1: "GetNodeInfo (handle least_scheduler) ''node-1m'' = Inr ?i1"
    and l2: "GetNodeInfo (handle least_scheduler) ''node-2m'' = Inr ?i2"
    by (simp_all add: cluster_defs)
  have h1: "(1000000 :: int64) = Memory (Allocatable ?i1) - Memory (Requested ?i1)"
    and h2: "(2000000 :: int64) = Memory (Allocatable ?i2) - Memory (Requested ?i2)"
    by simp_all
  have pos: "(0 :: int64) <s 1000000" and le: "(1000000 :: int64) \<le>s 2000000"
    by (simp_all add: word_sless_alt word_sle_eq)
  have scores:
    "Score most_scheduler pod_a0 ''node-1m'' = Inr (1000000, None)"
    "Score most_scheduler pod_a0 ''node-2m'' = Inr (2000000, None)"
    "Score least_scheduler pod_a0 ''node-1m'' = Inr (100000, None)"
    "Score least_scheduler pod_a0 ''node-2m'' = Inr (50000, None)"
    by (simp_all add: cluster_defs Score_def int64_div_def leastMode_def mostMode_def
        signed_divide_int_def)
  show ?thesis
    using pos le scores Score_monotone [OF l1 l2 h1 h2 pos le, of pod_a0]
    by (simp add: least_scheduler_def)
qed

subsection \<open>Normalisation\<close>

subsubsection \<open>The running minimum and maximum\<close>

lemma minmax_loop_fst_le_init: "fst (minmax_loop (mn, mx) xs) \<le>s mn"
proof (induction xs arbitrary: mn mx)
  case Nil
  then show ?case by simp
next
  case (Cons e es)
  show ?case
    using Cons.IH [where mn = "if NodeScore_Score e <s mn then NodeScore_Score e else mn"
                 and mx = "if mx <s NodeScore_Score e then NodeScore_Score e else mx"]
    by (auto simp: word_sle_eq word_sless_alt split: if_splits)
qed

lemma minmax_loop_fst_le:
  "e \<in> set xs \<Longrightarrow> fst (minmax_loop (mn, mx) xs) \<le>s NodeScore_Score e"
proof (induction xs arbitrary: mn mx)
  case Nil
  then show ?case by simp
next
  case (Cons x es)
  let ?mn = "if NodeScore_Score x <s mn then NodeScore_Score x else mn"
  let ?mx = "if mx <s NodeScore_Score x then NodeScore_Score x else mx"
  show ?case
  proof (cases "e = x")
    case True
    have "fst (minmax_loop (?mn, ?mx) es) \<le>s ?mn"
      by (rule minmax_loop_fst_le_init)
    then show ?thesis
      using True by (auto simp: word_sle_eq word_sless_alt split: if_splits)
  next
    case False
    then have "e \<in> set es" using Cons.prems by simp
    then show ?thesis
      using Cons.IH [where mn = ?mn and mx = ?mx] by simp
  qed
qed

lemma minmax_loop_fst_mem:
  "fst (minmax_loop (mn, mx) xs) = mn \<or> fst (minmax_loop (mn, mx) xs) \<in> NodeScore_Score ` set xs"
proof (induction xs arbitrary: mn mx)
  case Nil
  then show ?case by simp
next
  case (Cons x es)
  show ?case
    using Cons.IH [where mn = "if NodeScore_Score x <s mn then NodeScore_Score x else mn"
                 and mx = "if mx <s NodeScore_Score x then NodeScore_Score x else mx"]
    by (auto split: if_splits)
qed

lemma minmax_loop_snd_ge_init: "mx \<le>s snd (minmax_loop (mn, mx) xs)"
proof (induction xs arbitrary: mn mx)
  case Nil
  then show ?case by simp
next
  case (Cons e es)
  show ?case
    using Cons.IH [where mn = "if NodeScore_Score e <s mn then NodeScore_Score e else mn"
                 and mx = "if mx <s NodeScore_Score e then NodeScore_Score e else mx"]
    by (auto simp: word_sle_eq word_sless_alt split: if_splits)
qed

lemma minmax_loop_snd_ge:
  "e \<in> set xs \<Longrightarrow> NodeScore_Score e \<le>s snd (minmax_loop (mn, mx) xs)"
proof (induction xs arbitrary: mn mx)
  case Nil
  then show ?case by simp
next
  case (Cons x es)
  let ?mn = "if NodeScore_Score x <s mn then NodeScore_Score x else mn"
  let ?mx = "if mx <s NodeScore_Score x then NodeScore_Score x else mx"
  show ?case
  proof (cases "e = x")
    case True
    have "?mx \<le>s snd (minmax_loop (?mn, ?mx) es)"
      by (rule minmax_loop_snd_ge_init)
    then show ?thesis
      using True by (auto simp: word_sle_eq word_sless_alt split: if_splits)
  next
    case False
    then have "e \<in> set es" using Cons.prems by simp
    then show ?thesis
      using Cons.IH [where mn = ?mn and mx = ?mx] by simp
  qed
qed

lemma minmax_loop_snd_mem:
  "snd (minmax_loop (mn, mx) xs) = mx \<or> snd (minmax_loop (mn, mx) xs) \<in> NodeScore_Score ` set xs"
proof (induction xs arbitrary: mn mx)
  case Nil
  then show ?case by simp
next
  case (Cons x es)
  show ?case
    using Cons.IH [where mn = "if NodeScore_Score x <s mn then NodeScore_Score x else mn"
                 and mx = "if mx <s NodeScore_Score x then NodeScore_Score x else mx"]
    by (auto split: if_splits)
qed

text \<open>Started at the extreme values, the loop finds scores of the list.\<close>

lemma minmax_loop_min_attained:
  assumes "xs \<noteq> []"
  shows "fst (minmax_loop (MaxInt64, MinInt64) xs) \<in> NodeScore_Score ` set xs"
proof -
  obtain e where e: "e \<in> set xs"
    using assms by (cases xs) auto
  let ?m = "fst (minmax_loop (MaxInt64, MinInt64) xs)"
  consider "?m = MaxInt64" | "?m \<in> NodeScore_Score ` set xs"
    using minmax_loop_fst_mem [of MaxInt64 MinInt64 xs] by blast
  then show ?thesis
  proof cases
    case 1
    have "sint ?m \<le> sint (NodeScore_Score e)"
      using minmax_loop_fst_le [OF e, of MaxInt64 MinInt64] by (simp add: word_sle_eq)
    then have "sint (NodeScore_Score e) = sint MaxInt64"
      using 1 sint_int64_bounds [of "NodeScore_Score e"] by (simp add: sint_MaxInt64)
    then have "NodeScore_Score e = ?m"
      using 1 by (simp add: signed_word_eqI)
    then show ?thesis using e by force
  next
    case 2
    then show ?thesis .
  qed
qed

lemma minmax_loop_max_attained:
  assumes "xs \<noteq> []"
  shows "snd (minmax_loop (MaxInt64, MinInt64) xs) \<in> NodeScore_Score ` set xs"
proof -
  obtain e where e: "e \<in> set xs"
    using assms by (cases xs) auto
  let ?m = "snd (minmax_loop (MaxInt64, MinInt64) xs)"
  consider "?m = MinInt64" | "?m \<in> NodeScore_Score ` set xs"
    using minmax_loop_snd_mem [of MaxInt64 MinInt64 xs] by blast
  then show ?thesis
  proof cases
    case 1
    have "sint (NodeScore_Score e) \<le> sint ?m"
      using minmax_loop_snd_ge [OF e, of MaxInt64 MinInt64] by (simp add: word_sle_eq)
    then have "sint (NodeScore_Score e) = sint MinInt64"
      using 1 sint_int64_bounds [of "NodeScore_Score e"] by (simp add: sint_MinInt64)
    then have "NodeScore_Score e = ?m"
      using 1 by (simp add: signed_word_eqI)
    then show ?thesis using e by force
  next
    case 2
    then show ?thesis .
  qed
qed

subsubsection \<open>The rescaling loop\<close>

lemma rescale_loop_returns:
  "scoreRange \<noteq> 0 \<Longrightarrow> \<exists>out. rescale_loop minScore scoreRange frameRange xs = Inr out"
  by (induction xs) (auto simp: int64_div_def)

lemma rescale_step_exact:
  fixes v lo sr :: int64
  assumes D: "0 < sint sr" "sint sr \<le> 92233720368547758"
    and x: "0 \<le> sint v - sint lo" "sint v - sint lo \<le> sint sr"
  shows "int64_div ((v - lo) * 100) sr
           = Inr (word_of_int ((sint v - sint lo) * 100 div sint sr))"
proof -
  have d: "sint (v - lo) = sint v - sint lo"
    using D x by (intro sint_diff_exact) auto
  have m: "sint ((v - lo) * 100) = (sint v - sint lo) * 100"
  proof -
    have "sint ((v - lo) * 100) = sint (v - lo) * sint (100 :: int64)"
      using D x d by (intro sint_mult_exact) auto
    then show ?thesis by (simp add: d)
  qed
  have nz: "sr \<noteq> 0" using D(1) by auto
  have "0 \<le> (sint v - sint lo) * 100" using x by simp
  then have "(sint v - sint lo) * 100 sdiv sint sr = (sint v - sint lo) * 100 div sint sr"
    using D(1) by (rule sdiv_pos_eq)
  then show ?thesis
    using nz by (simp only: int64_div_def m if_False)
qed

lemma rescale_loop_exact:
  fixes lo sr :: int64
  assumes D: "0 < sint sr" "sint sr \<le> 92233720368547758"
    and x: "\<forall>e\<in>set xs. 0 \<le> sint (NodeScore_Score e) - sint lo \<and>
                         sint (NodeScore_Score e) - sint lo \<le> sint sr"
  shows "rescale_loop lo sr 100 xs
           = Inr (map (\<lambda>e. e\<lparr>NodeScore_Score :=
                      word_of_int ((sint (NodeScore_Score e) - sint lo) * 100 div sint sr)\<rparr>) xs)"
  using x
proof (induction xs)
  case Nil
  then show ?case by simp
next
  case (Cons e es)
  have step: "int64_div ((NodeScore_Score e - lo) * 100) sr
      = Inr (word_of_int ((sint (NodeScore_Score e) - sint lo) * 100 div sint sr))"
    using Cons.prems by (intro rescale_step_exact D) auto
  have rest: "rescale_loop lo sr 100 es
      = Inr (map (\<lambda>e. e\<lparr>NodeScore_Score :=
                 word_of_int ((sint (NodeScore_Score e) - sint lo) * 100 div sint sr)\<rparr>) es)"
    using Cons.prems by (intro Cons.IH) auto
  show ?case
    by (simp only: rescale_loop.simps step rest sum.case list.map MinNodeScore_def add_0_right)
qed

text \<open>The quotient of the rescaling lies between 0 and 100.\<close>

lemma rescaled_bounds:
  fixes x D :: int
  assumes "0 < D" "0 \<le> x" "x \<le> D"
  shows "0 \<le> x * 100 div D \<and> x * 100 div D \<le> 100"
proof -
  have "x * 100 div D \<le> D * 100 div D"
    using assms by (intro zdiv_mono1) auto
  moreover have "0 \<le> x * 100 div D"
    using assms by (simp add: pos_imp_zdiv_nonneg_iff)
  ultimately show ?thesis using assms by simp
qed

lemma rescaled_mono:
  fixes x y D :: int
  assumes "0 < D" "x \<le> y"
  shows "x * 100 div D \<le> y * 100 div D"
  using assms by (intro zdiv_mono1) auto

lemma rescaled_top:
  fixes x D :: int
  assumes "0 < D" "x = D"
  shows "x * 100 div D = 100"
  using assms by simp

subsubsection \<open>The whole pass\<close>

lemma assign_max_loop_map:
  "assign_max_loop xs = map (\<lambda>e. e\<lparr>NodeScore_Score := MaxNodeScore\<rparr>) xs"
  by (induction xs) simp_all

lemma NormalizeScore_split:
  "NormalizeScore cs pod scores =
     (if fst (minmax_loop (MaxInt64, MinInt64) scores) = snd (minmax_loop (MaxInt64, MinInt64) scores)
      then Inr (assign_max_loop scores, NewStatus Success NoMessage)
      else (case rescale_loop (fst (minmax_loop (MaxInt64, MinInt64) scores))
                  (snd (minmax_loop (MaxInt64, MinInt64) scores)
                     - fst (minmax_loop (MaxInt64, MinInt64) scores))
                  (MaxNodeScore - MinNodeScore) scores of
              Inl p \<Rightarrow> Inl p
            | Inr scores' \<Rightarrow> Inr (scores', NewStatus Success NoMessage)))"
  by (simp add: NormalizeScore_def Let_def split: prod.split)

lemma NormalizeScore_exact:
  assumes nondeg: "\<exists>a\<in>set scores. \<exists>b\<in>set scores. NodeScore_Score a \<noteq> NodeScore_Score b"
    and bound: "\<forall>a\<in>set scores. \<forall>b\<in>set scores.
                  sint (NodeScore_Score b) - sint (NodeScore_Score a) \<le> 92233720368547758"
  shows "\<exists>lo hi. lo \<in> NodeScore_Score ` set scores \<and> hi \<in> NodeScore_Score ` set scores \<and>
           (\<forall>e\<in>set scores. sint lo \<le> sint (NodeScore_Score e) \<and>
                             sint (NodeScore_Score e) \<le> sint hi) \<and>
           sint lo < sint hi \<and>
           NormalizeScore cs pod scores =
             Inr (map (\<lambda>e. e\<lparr>NodeScore_Score :=
                        word_of_int ((sint (NodeScore_Score e) - sint lo) * 100
                                       div (sint hi - sint lo))\<rparr>) scores,
                  NewStatus Success NoMessage)"
proof -
  let ?lo = "fst (minmax_loop (MaxInt64, MinInt64) scores)"
  let ?hi = "snd (minmax_loop (MaxInt64, MinInt64) scores)"
  have ne: "scores \<noteq> []" using nondeg by auto
  have lo_mem: "?lo \<in> NodeScore_Score ` set scores"
    by (rule minmax_loop_min_attained [OF ne])
  have hi_mem: "?hi \<in> NodeScore_Score ` set scores"
    by (rule minmax_loop_max_attained [OF ne])
  have between: "\<forall>e\<in>set scores. sint ?lo \<le> sint (NodeScore_Score e) \<and>
                                  sint (NodeScore_Score e) \<le> sint ?hi"
    using minmax_loop_fst_le [of _ scores MaxInt64 MinInt64]
      minmax_loop_snd_ge [of _ scores MaxInt64 MinInt64]
    by (simp add: word_sle_eq)
  obtain a b where ab: "a \<in> set scores" "b \<in> set scores"
      "NodeScore_Score a \<noteq> NodeScore_Score b"
    using nondeg by blast
  have "sint (NodeScore_Score a) \<noteq> sint (NodeScore_Score b)"
    using ab(3) signed_word_eqI by blast
  moreover have "sint ?lo \<le> sint (NodeScore_Score a)" "sint (NodeScore_Score a) \<le> sint ?hi"
    "sint ?lo \<le> sint (NodeScore_Score b)" "sint (NodeScore_Score b) \<le> sint ?hi"
    using between ab(1,2) by simp_all
  ultimately have lt: "sint ?lo < sint ?hi"
    by linarith
  have width: "sint ?hi - sint ?lo \<le> 92233720368547758"
    using bound lo_mem hi_mem by auto
  have range: "sint (?hi - ?lo) = sint ?hi - sint ?lo"
    using lt width by (intro sint_diff_exact) auto
  have neq: "?lo \<noteq> ?hi" using lt by auto
  have loop: "rescale_loop ?lo (?hi - ?lo) 100 scores
      = Inr (map (\<lambda>e. e\<lparr>NodeScore_Score :=
                 word_of_int ((sint (NodeScore_Score e) - sint ?lo) * 100
                                div sint (?hi - ?lo))\<rparr>) scores)"
    using lt width between by (intro rescale_loop_exact) (auto simp: range)
  have frame: "MaxNodeScore - MinNodeScore = (100 :: int64)"
    by (simp add: MaxNodeScore_def MinNodeScore_def)
  have "NormalizeScore cs pod scores =
      Inr (map (\<lambda>e. e\<lparr>NodeScore_Score :=
                 word_of_int ((sint (NodeScore_Score e) - sint ?lo) * 100
                                div (sint ?hi - sint ?lo))\<rparr>) scores,
           NewStatus Success NoMessage)"
    using neq by (simp only: NormalizeScore_split frame loop range if_False sum.case)
  then show ?thesis
    using lo_mem hi_mem between lt by blast
qed

lemmas NormalizeScore_run =
  NormalizeScore_def MaxInt64_def MinInt64_def MaxNodeScore_def MinNodeScore_def
  int64_div_def signed_divide_int_def NewStatus_def word_sless_alt Let_def

text \<open>
  Where the spread of the raw scores (largest minus smallest) is at most
  92233720368547758, the largest value whose hundredfold still fits in \<^verbatim>\<open>int64\<close>, no
  product wraps around: \<^verbatim>\<open>NormalizeScore\<close> succeeds, keeps the nodes in place, puts
  every output score between \<^verbatim>\<open>MinNodeScore\<close> and \<^verbatim>\<open>MaxNodeScore\<close>, maps every
  entry holding the smallest raw score to \<^verbatim>\<open>MinNodeScore\<close> and every entry holding the
  largest to \<^verbatim>\<open>MaxNodeScore\<close>.
\<close>

theorem NormalizeScore_range:
  assumes nondeg: "\<exists>a\<in>set scores. \<exists>b\<in>set scores. NodeScore_Score a \<noteq> NodeScore_Score b"
    and bound: "\<forall>a\<in>set scores. \<forall>b\<in>set scores.
                  sint (NodeScore_Score b) - sint (NodeScore_Score a) \<le> 92233720368547758"
  shows "\<exists>out. NormalizeScore cs pod scores = Inr (out, NewStatus Success NoMessage) \<and>
           length out = length scores \<and>
           (\<forall>i<length scores.
              NodeScore_Name (out ! i) = NodeScore_Name (scores ! i) \<and>
              MinNodeScore \<le>s NodeScore_Score (out ! i) \<and>
              NodeScore_Score (out ! i) \<le>s MaxNodeScore \<and>
              ((\<forall>e\<in>set scores. NodeScore_Score (scores ! i) \<le>s NodeScore_Score e) \<longrightarrow>
                 NodeScore_Score (out ! i) = MinNodeScore) \<and>
              ((\<forall>e\<in>set scores. NodeScore_Score e \<le>s NodeScore_Score (scores ! i)) \<longrightarrow>
                 NodeScore_Score (out ! i) = MaxNodeScore))"
proof -
  obtain lo hi where lo: "lo \<in> NodeScore_Score ` set scores"
    and hi: "hi \<in> NodeScore_Score ` set scores"
    and between: "\<forall>e\<in>set scores. sint lo \<le> sint (NodeScore_Score e) \<and>
                                   sint (NodeScore_Score e) \<le> sint hi"
    and lt: "sint lo < sint hi"
    and run: "NormalizeScore cs pod scores =
        Inr (map (\<lambda>e. e\<lparr>NodeScore_Score :=
                   word_of_int ((sint (NodeScore_Score e) - sint lo) * 100
                                  div (sint hi - sint lo))\<rparr>) scores,
             NewStatus Success NoMessage)"
    using NormalizeScore_exact [OF nondeg bound, of cs pod] by blast
  let ?q = "\<lambda>e. (sint (NodeScore_Score e) - sint lo) * 100 div (sint hi - sint lo)"
  let ?out = "map (\<lambda>e. e\<lparr>NodeScore_Score := word_of_int (?q e)\<rparr>) scores"
  have entry: "NodeScore_Name (?out ! i) = NodeScore_Name (scores ! i) \<and>
      MinNodeScore \<le>s NodeScore_Score (?out ! i) \<and>
      NodeScore_Score (?out ! i) \<le>s MaxNodeScore \<and>
      ((\<forall>e\<in>set scores. NodeScore_Score (scores ! i) \<le>s NodeScore_Score e) \<longrightarrow>
         NodeScore_Score (?out ! i) = MinNodeScore) \<and>
      ((\<forall>e\<in>set scores. NodeScore_Score e \<le>s NodeScore_Score (scores ! i)) \<longrightarrow>
         NodeScore_Score (?out ! i) = MaxNodeScore)"
    if i: "i < length scores" for i
  proof -
    let ?e = "scores ! i"
    have mem: "?e \<in> set scores" using i by simp
    have x: "0 \<le> sint (NodeScore_Score ?e) - sint lo"
      "sint (NodeScore_Score ?e) - sint lo \<le> sint hi - sint lo"
      using between mem by auto
    have q: "0 \<le> ?q ?e \<and> ?q ?e \<le> 100"
      using lt x by (intro rescaled_bounds) auto
    then have sq: "sint (word_of_int (?q ?e) :: int64) = ?q ?e"
      by (intro sint_word_of_int_small) auto
    have at_min: "?q ?e = 0"
      if "\<forall>e\<in>set scores. NodeScore_Score ?e \<le>s NodeScore_Score e"
    proof -
      have "sint (NodeScore_Score ?e) \<le> sint lo"
        using that lo by (auto simp: word_sle_eq)
      then have "sint (NodeScore_Score ?e) - sint lo = 0"
        using x(1) by simp
      then show ?thesis by simp
    qed
    have at_max: "?q ?e = 100"
      if "\<forall>e\<in>set scores. NodeScore_Score e \<le>s NodeScore_Score ?e"
    proof -
      have "sint hi \<le> sint (NodeScore_Score ?e)"
        using that hi by (auto simp: word_sle_eq)
      then have "sint (NodeScore_Score ?e) - sint lo = sint hi - sint lo"
        using x(2) by simp
      moreover have "0 < sint hi - sint lo" using lt by simp
      ultimately show ?thesis by (rule rescaled_top [rotated])
    qed
    show ?thesis
      using i q sq at_min at_max
      by (auto simp: word_sle_eq MinNodeScore_def MaxNodeScore_def)
  qed
  show ?thesis
    using run entry by (intro exI [of _ ?out]) simp
qed

theorem NormalizeScore_range_witness:
  "NormalizeScore least_scheduler pod_a0 skewed_scores =
     Inr ([\<lparr>NodeScore_Name = ''node-1'', NodeScore_Score = 100\<rparr>,
           \<lparr>NodeScore_Name = ''node-2'', NodeScore_Score = 0\<rparr>,
           \<lparr>NodeScore_Name = ''node-3'', NodeScore_Score = 25\<rparr>],
          NewStatus Success NoMessage)"
proof -
  have nondeg: "\<exists>a\<in>set skewed_scores. \<exists>b\<in>set skewed_scores.
      NodeScore_Score a \<noteq> NodeScore_Score b"
    by (auto simp: skewed_scores_def)
  have bound: "\<forall>a\<in>set skewed_scores. \<forall>b\<in>set skewed_scores.
      sint (NodeScore_Score b) - sint (NodeScore_Score a) \<le> 92233720368547758"
    by (simp add: skewed_scores_def)
  have run: "NormalizeScore least_scheduler pod_a0 skewed_scores =
     Inr ([\<lparr>NodeScore_Name = ''node-1'', NodeScore_Score = 100\<rparr>,
           \<lparr>NodeScore_Name = ''node-2'', NodeScore_Score = 0\<rparr>,
           \<lparr>NodeScore_Name = ''node-3'', NodeScore_Score = 25\<rparr>],
          NewStatus Success NoMessage)"
    by (simp add: skewed_scores_def NormalizeScore_run)
  show ?thesis
    using nondeg bound run NormalizeScore_range [OF nondeg bound, of least_scheduler pod_a0]
    by simp
qed

text \<open>
  An entry holding the smallest raw score maps to \<^verbatim>\<open>MinNodeScore\<close> at any spread: its
  difference to the minimum is zero, and so is the product.
\<close>

lemma rescale_loop_min_entry:
  assumes "scoreRange \<noteq> 0"
  shows "\<exists>out. rescale_loop lo scoreRange frameRange xs = Inr out \<and> length out = length xs \<and>
           (\<forall>i<length xs. NodeScore_Score (xs ! i) = lo \<longrightarrow>
                            NodeScore_Score (out ! i) = MinNodeScore)"
proof (induction xs)
  case Nil
  then show ?case by simp
next
  case (Cons e es)
  obtain rest where rest: "rescale_loop lo scoreRange frameRange es = Inr rest"
    "length rest = length es"
    "\<forall>i<length es. NodeScore_Score (es ! i) = lo \<longrightarrow> NodeScore_Score (rest ! i) = MinNodeScore"
    using Cons.IH by blast
  obtain q where q: "int64_div ((NodeScore_Score e - lo) * frameRange) scoreRange = Inr q"
    "NodeScore_Score e = lo \<longrightarrow> q = 0"
    using assms by (auto simp: int64_div_def)
  let ?out = "e\<lparr>NodeScore_Score := q + MinNodeScore\<rparr> # rest"
  have run: "rescale_loop lo scoreRange frameRange (e # es) = Inr ?out"
    by (simp add: q(1) rest(1))
  have entry: "NodeScore_Score (?out ! i) = MinNodeScore"
    if "i < length (e # es)" "NodeScore_Score ((e # es) ! i) = lo" for i
  proof (cases i)
    case 0
    then show ?thesis using that(2) q(2) by simp
  next
    case (Suc j)
    then show ?thesis using that rest(3) by simp
  qed
  show ?case
    using run rest(2) entry by (intro exI [of _ ?out]) simp
qed

theorem NormalizeScore_min_entry:
  assumes nondeg: "\<exists>a\<in>set scores. \<exists>b\<in>set scores. NodeScore_Score a \<noteq> NodeScore_Score b"
  shows "\<exists>out. NormalizeScore cs pod scores = Inr (out, NewStatus Success NoMessage) \<and>
           length out = length scores \<and>
           (\<forall>i<length scores.
              (\<forall>e\<in>set scores. NodeScore_Score (scores ! i) \<le>s NodeScore_Score e) \<longrightarrow>
              NodeScore_Score (out ! i) = MinNodeScore)"
proof -
  let ?lo = "fst (minmax_loop (MaxInt64, MinInt64) scores)"
  let ?hi = "snd (minmax_loop (MaxInt64, MinInt64) scores)"
  have ne: "scores \<noteq> []" using nondeg by auto
  have lo_mem: "?lo \<in> NodeScore_Score ` set scores"
    by (rule minmax_loop_min_attained [OF ne])
  have between: "\<forall>e\<in>set scores. sint ?lo \<le> sint (NodeScore_Score e) \<and>
                                  sint (NodeScore_Score e) \<le> sint ?hi"
    using minmax_loop_fst_le [of _ scores MaxInt64 MinInt64]
      minmax_loop_snd_ge [of _ scores MaxInt64 MinInt64]
    by (simp add: word_sle_eq)
  obtain a b where ab: "a \<in> set scores" "b \<in> set scores"
      "NodeScore_Score a \<noteq> NodeScore_Score b"
    using nondeg by blast
  have "sint (NodeScore_Score a) \<noteq> sint (NodeScore_Score b)"
    using ab(3) signed_word_eqI by blast
  moreover have "sint ?lo \<le> sint (NodeScore_Score a)" "sint (NodeScore_Score a) \<le> sint ?hi"
    "sint ?lo \<le> sint (NodeScore_Score b)" "sint (NodeScore_Score b) \<le> sint ?hi"
    using between ab(1,2) by simp_all
  ultimately have "sint ?lo < sint ?hi" by linarith
  then have neq: "?lo \<noteq> ?hi" by auto
  then have "?hi - ?lo \<noteq> 0" by simp
  then obtain out where out:
    "rescale_loop ?lo (?hi - ?lo) (MaxNodeScore - MinNodeScore) scores = Inr out"
    "length out = length scores"
    "\<forall>i<length scores. NodeScore_Score (scores ! i) = ?lo \<longrightarrow>
                         NodeScore_Score (out ! i) = MinNodeScore"
    using rescale_loop_min_entry [of "?hi - ?lo" ?lo "MaxNodeScore - MinNodeScore" scores]
    by blast
  have run: "NormalizeScore cs pod scores = Inr (out, NewStatus Success NoMessage)"
    using neq by (simp add: NormalizeScore_split out(1))
  have entry: "NodeScore_Score (out ! i) = MinNodeScore"
    if "i < length scores"
      "\<forall>e\<in>set scores. NodeScore_Score (scores ! i) \<le>s NodeScore_Score e" for i
  proof -
    have "sint (NodeScore_Score (scores ! i)) \<le> sint ?lo"
      using that(2) lo_mem by (auto simp: word_sle_eq)
    moreover have "sint ?lo \<le> sint (NodeScore_Score (scores ! i))"
      using between that(1) by simp
    ultimately have "NodeScore_Score (scores ! i) = ?lo"
      by (intro signed_word_eqI) simp
    then show ?thesis using out(3) that(1) by simp
  qed
  show ?thesis
    using run out(2) entry by (intro exI [of _ out]) simp
qed

text \<open>
  C2. The claim asks, for every non-empty list whose smallest and largest raw scores
  differ, that every output lies between \<^verbatim>\<open>MinNodeScore\<close> and \<^verbatim>\<open>MaxNodeScore\<close> and
  that the entries holding the largest raw score get \<^verbatim>\<open>MaxNodeScore\<close>; the comment
  above the function says the same of the range. The code multiplies in \<^verbatim>\<open>int64\<close>
  without a check: for the raw scores 0 and 100000000000000000 the product
  \<open>100000000000000000 * 100\<close> wraps around, and the entry with the largest raw score
  gets \<open>-84\<close>, below \<^verbatim>\<open>MinNodeScore\<close> and different from \<^verbatim>\<open>MaxNodeScore\<close>.
\<close>

theorem NormalizeScore_wide_overflow:
  "NormalizeScore least_scheduler pod_a0 wide_scores =
     Inr ([\<lparr>NodeScore_Name = ''node-1'', NodeScore_Score = 0\<rparr>,
           \<lparr>NodeScore_Name = ''node-2'', NodeScore_Score = - 84\<rparr>],
          NewStatus Success NoMessage) \<and>
   \<not> MinNodeScore \<le>s (- 84 :: int64) \<and>
   (- 84 :: int64) \<noteq> MaxNodeScore"
  by (simp add: wide_scores_def NormalizeScore_run word_sle_eq)

text \<open>
  Under the same bound on the spread \<^verbatim>\<open>NormalizeScore\<close> preserves the order: entries
  with raw scores \<open>a \<le> b\<close> get normalized scores \<open>a' \<le> b'\<close>. On the raw scores
  10, 20, 30 the result is 0, 50, 100.
\<close>

theorem NormalizeScore_order:
  assumes nondeg: "\<exists>a\<in>set scores. \<exists>b\<in>set scores. NodeScore_Score a \<noteq> NodeScore_Score b"
    and bound: "\<forall>a\<in>set scores. \<forall>b\<in>set scores.
                  sint (NodeScore_Score b) - sint (NodeScore_Score a) \<le> 92233720368547758"
  shows "(\<exists>out. NormalizeScore cs pod scores = Inr (out, NewStatus Success NoMessage) \<and>
            length out = length scores \<and>
            (\<forall>i<length scores. \<forall>j<length scores.
               NodeScore_Score (scores ! i) \<le>s NodeScore_Score (scores ! j) \<longrightarrow>
               NodeScore_Score (out ! i) \<le>s NodeScore_Score (out ! j))) \<and>
         NormalizeScore cs pod three_scores =
           Inr ([\<lparr>NodeScore_Name = ''node-1'', NodeScore_Score = 0\<rparr>,
                 \<lparr>NodeScore_Name = ''node-2'', NodeScore_Score = 50\<rparr>,
                 \<lparr>NodeScore_Name = ''node-3'', NodeScore_Score = 100\<rparr>],
                NewStatus Success NoMessage)"
proof -
  obtain lo hi :: int64 where between: "\<forall>e\<in>set scores. sint lo \<le> sint (NodeScore_Score e) \<and>
                                   sint (NodeScore_Score e) \<le> sint hi"
    and lt: "sint lo < sint hi"
    and run: "NormalizeScore cs pod scores =
        Inr (map (\<lambda>e. e\<lparr>NodeScore_Score :=
                   word_of_int ((sint (NodeScore_Score e) - sint lo) * 100
                                  div (sint hi - sint lo))\<rparr>) scores,
             NewStatus Success NoMessage)"
    using NormalizeScore_exact [OF nondeg bound, of cs pod] by blast
  let ?q = "\<lambda>e. (sint (NodeScore_Score e) - sint lo) * 100 div (sint hi - sint lo)"
  let ?out = "map (\<lambda>e. e\<lparr>NodeScore_Score := word_of_int (?q e)\<rparr>) scores"
  have sq: "sint (word_of_int (?q (scores ! i)) :: int64) = ?q (scores ! i)"
    if "i < length scores" for i
  proof -
    have "scores ! i \<in> set scores" using that by simp
    then have "0 \<le> sint (NodeScore_Score (scores ! i)) - sint lo"
      "sint (NodeScore_Score (scores ! i)) - sint lo \<le> sint hi - sint lo"
      using between by auto
    then have "0 \<le> ?q (scores ! i) \<and> ?q (scores ! i) \<le> 100"
      using lt by (intro rescaled_bounds) auto
    then show ?thesis
      by (intro sint_word_of_int_small) auto
  qed
  have ordered: "NodeScore_Score (?out ! i) \<le>s NodeScore_Score (?out ! j)"
    if "i < length scores" "j < length scores"
      "NodeScore_Score (scores ! i) \<le>s NodeScore_Score (scores ! j)" for i j
  proof -
    have "sint (NodeScore_Score (scores ! i)) - sint lo
            \<le> sint (NodeScore_Score (scores ! j)) - sint lo"
      using that(3) by (simp add: word_sle_eq)
    then have "?q (scores ! i) \<le> ?q (scores ! j)"
      using lt by (intro rescaled_mono) auto
    then have "sint (word_of_int (?q (scores ! i)) :: int64)
                 \<le> sint (word_of_int (?q (scores ! j)) :: int64)"
      by (simp only: sq [OF that(1)] sq [OF that(2)])
    then show ?thesis
      using that(1,2) by (simp add: word_sle_eq)
  qed
  have general: "\<exists>out. NormalizeScore cs pod scores = Inr (out, NewStatus Success NoMessage) \<and>
            length out = length scores \<and>
            (\<forall>i<length scores. \<forall>j<length scores.
               NodeScore_Score (scores ! i) \<le>s NodeScore_Score (scores ! j) \<longrightarrow>
               NodeScore_Score (out ! i) \<le>s NodeScore_Score (out ! j))"
    using run ordered by (intro exI [of _ ?out]) simp
  have concrete: "NormalizeScore cs pod three_scores =
           Inr ([\<lparr>NodeScore_Name = ''node-1'', NodeScore_Score = 0\<rparr>,
                 \<lparr>NodeScore_Name = ''node-2'', NodeScore_Score = 50\<rparr>,
                 \<lparr>NodeScore_Name = ''node-3'', NodeScore_Score = 100\<rparr>],
                NewStatus Success NoMessage)"
    by (simp add: three_scores_def NormalizeScore_run)
  show ?thesis
    using general concrete by simp
qed

theorem NormalizeScore_order_witness:
  "NormalizeScore most_scheduler pod_a0 three_scores =
     Inr ([\<lparr>NodeScore_Name = ''node-1'', NodeScore_Score = 0\<rparr>,
           \<lparr>NodeScore_Name = ''node-2'', NodeScore_Score = 50\<rparr>,
           \<lparr>NodeScore_Name = ''node-3'', NodeScore_Score = 100\<rparr>],
          NewStatus Success NoMessage) \<and>
   (0 :: int64) \<le>s 50 \<and> (50 :: int64) \<le>s 100"
proof -
  have nondeg: "\<exists>a\<in>set three_scores. \<exists>b\<in>set three_scores.
      NodeScore_Score a \<noteq> NodeScore_Score b"
    by (auto simp: three_scores_def)
  have bound: "\<forall>a\<in>set three_scores. \<forall>b\<in>set three_scores.
      sint (NodeScore_Score b) - sint (NodeScore_Score a) \<le> 92233720368547758"
    by (simp add: three_scores_def)
  show ?thesis
    using nondeg bound NormalizeScore_order [OF nondeg bound, of most_scheduler pod_a0]
    by (simp add: word_sle_eq)
qed

text \<open>
  C7. The claim asks that entries with raw scores \<open>a \<le> b\<close> normalize to \<open>a' \<le> b'\<close> on
  every list with distinct minimum and maximum. The unchecked \<^verbatim>\<open>int64\<close> product breaks
  it: of the raw scores 0, 50000000000000000 and 100000000000000000 the second maps to
  50 and the third, after the wrap-around of its product, to \<open>-84\<close>.
\<close>

theorem NormalizeScore_wide_order_overflow:
  "NormalizeScore most_scheduler pod_a0 wide_ordered_scores =
     Inr ([\<lparr>NodeScore_Name = ''node-1'', NodeScore_Score = 0\<rparr>,
           \<lparr>NodeScore_Name = ''node-2'', NodeScore_Score = 50\<rparr>,
           \<lparr>NodeScore_Name = ''node-3'', NodeScore_Score = - 84\<rparr>],
          NewStatus Success NoMessage) \<and>
   (50000000000000000 :: int64) \<le>s 100000000000000000 \<and>
   \<not> (50 :: int64) \<le>s - 84"
  by (simp add: wide_ordered_scores_def NormalizeScore_run word_sle_eq)

text \<open>
  C4. On a non-empty list whose raw scores are all equal, a single node included,
  \<^verbatim>\<open>NormalizeScore\<close> gives every entry \<^verbatim>\<open>MaxNodeScore\<close>.
\<close>

theorem NormalizeScore_uniform:
  assumes "scores \<noteq> []"
    and "\<forall>e\<in>set scores. NodeScore_Score e = c"
  shows "NormalizeScore cs pod scores =
           Inr (map (\<lambda>e. e\<lparr>NodeScore_Score := MaxNodeScore\<rparr>) scores,
                NewStatus Success NoMessage)"
proof -
  have "fst (minmax_loop (MaxInt64, MinInt64) scores) \<in> NodeScore_Score ` set scores"
    by (rule minmax_loop_min_attained [OF assms(1)])
  then have lo: "fst (minmax_loop (MaxInt64, MinInt64) scores) = c"
    using assms(2) by auto
  have "snd (minmax_loop (MaxInt64, MinInt64) scores) \<in> NodeScore_Score ` set scores"
    by (rule minmax_loop_max_attained [OF assms(1)])
  then have hi: "snd (minmax_loop (MaxInt64, MinInt64) scores) = c"
    using assms(2) by auto
  show ?thesis
    by (simp add: NormalizeScore_split lo hi assign_max_loop_map)
qed

theorem NormalizeScore_uniform_witness:
  "uniform_scores \<noteq> [] \<and>
   NormalizeScore least_scheduler pod_a0 uniform_scores =
     Inr ([\<lparr>NodeScore_Name = ''node-1'', NodeScore_Score = MaxNodeScore\<rparr>,
           \<lparr>NodeScore_Name = ''node-2'', NodeScore_Score = MaxNodeScore\<rparr>,
           \<lparr>NodeScore_Name = ''node-3'', NodeScore_Score = MaxNodeScore\<rparr>],
          NewStatus Success NoMessage)"
proof -
  have ne: "uniform_scores \<noteq> []"
    by (simp add: uniform_scores_def)
  have same: "\<forall>e\<in>set uniform_scores. NodeScore_Score e = 5"
    by (simp add: uniform_scores_def)
  show ?thesis
    using ne same NormalizeScore_uniform [OF ne same, of least_scheduler pod_a0]
    by (simp add: uniform_scores_def)
qed

text \<open>
  C9. \<^verbatim>\<open>NormalizeScore\<close> has no failure path: on every list, the empty one
  included, its division never panics and it returns the \<open>Success\<close> status; the empty
  list comes back empty.
\<close>

theorem NormalizeScore_no_failure:
  "(\<exists>out. NormalizeScore cs pod scores = Inr (out, NewStatus Success NoMessage)) \<and>
   NormalizeScore cs pod [] = Inr ([], NewStatus Success NoMessage)"
proof -
  let ?lo = "fst (minmax_loop (MaxInt64, MinInt64) scores)"
  let ?hi = "snd (minmax_loop (MaxInt64, MinInt64) scores)"
  have returns: "\<exists>out. NormalizeScore cs pod scores = Inr (out, NewStatus Success NoMessage)"
  proof (cases "?lo = ?hi")
    case True
    then show ?thesis by (simp add: NormalizeScore_split)
  next
    case False
    then have "?hi - ?lo \<noteq> 0" by simp
    then obtain out where
      "rescale_loop ?lo (?hi - ?lo) (MaxNodeScore - MinNodeScore) scores = Inr out"
      using rescale_loop_returns by blast
    then show ?thesis using False by (simp add: NormalizeScore_split)
  qed
  have empty: "NormalizeScore cs pod [] = Inr ([], NewStatus Success NoMessage)"
    by (simp add: NormalizeScore_def MaxInt64_def MinInt64_def)
  show ?thesis using returns empty by simp
qed

end
